theory Spec2Isabelle
  imports Main "HOL-Library.Sublist" "HOL-Library.AList"
begin

section \<open>Strings\<close>

text \<open>
  A Python \<open>str\<close> is modelled as a \<open>string\<close>, each \<open>char\<close> standing for one code point
  below 256. \<open>isspace\<close> is the set of those code points that \<open>str.strip()\<close> and
  \<open>str.split()\<close> treat as whitespace. \<open>py_replace\<close> is \<open>str.replace\<close>: a left-to-right scan
  replacing non-overlapping occurrences (for an empty pattern, Python inserts the replacement
  before every character and at the end).
\<close>


definition isspace :: "char \<Rightarrow> bool" where
  "isspace c = ((of_char c :: nat) \<in> {9, 10, 11, 12, 13, 28, 29, 30, 31, 32, 133, 160})"

fun py_replace :: "string \<Rightarrow> string \<Rightarrow> string \<Rightarrow> string" where
  "py_replace old new [] = (if old = [] then new else [])"
| "py_replace old new (c # cs) =
     (if old = [] then new @ c # py_replace old new cs
      else if prefix old (c # cs) then new @ py_replace old new (drop (length old) (c # cs))
      else c # py_replace old new cs)"

definition py_strip :: "string \<Rightarrow> string" where
  "py_strip s = rev (dropWhile isspace (rev (dropWhile isspace s)))"

fun split_from :: "string \<Rightarrow> string \<Rightarrow> string list" where
  "split_from w [] = (if w = [] then [] else [w])"
| "split_from w (c # cs) =
     (if isspace c then (if w = [] then split_from [] cs else w # split_from [] cs)
      else split_from (w @ [c]) cs)"

definition py_split :: "string \<Rightarrow> string list" where
  "py_split s = split_from [] s"

fun py_join :: "string \<Rightarrow> string list \<Rightarrow> string" where
  "py_join sep [] = []"
| "py_join sep [w] = w"
| "py_join sep (w # ws) = w @ sep @ py_join sep ws"

definition clean_name :: "string \<Rightarrow> string" where
  "clean_name s = py_replace '' '' ''_'' (py_strip (py_replace ''/'' ''_'' (py_replace '','' '''' s)))"



text \<open>Replacing one character by another, as a function on characters (used in the proofs).\<close>

definition swap_char :: "char \<Rightarrow> char \<Rightarrow> char \<Rightarrow> char" where
  "swap_char a b x = (if x = a then b else x)"

section \<open>Feature collections\<close>

text \<open>
  A GeoDataFrame is a list of column names and a list of rows; a row maps column names to
  cells, a column it does not mention being null there. Floating-point coordinates are
  kept abstract (the type variable \<open>'f\<close>): the program only copies them. Only a point carries
  the coordinates the program reads; \<open>geom_type_name\<close> is the \<open>geom_type\<close> of a geometry.
\<close>

datatype 'f geometry =
    Point 'f 'f
  | MultiPoint
  | LineString
  | MultiLineString
  | LinearRing
  | Polygon
  | MultiPolygon
  | GeometryCollection

fun geom_type_name :: "'f geometry \<Rightarrow> string" where
  "geom_type_name (Point x y) = ''Point''"
| "geom_type_name MultiPoint = ''MultiPoint''"
| "geom_type_name LineString = ''LineString''"
| "geom_type_name MultiLineString = ''MultiLineString''"
| "geom_type_name LinearRing = ''LinearRing''"
| "geom_type_name Polygon = ''Polygon''"
| "geom_type_name MultiPolygon = ''MultiPolygon''"
| "geom_type_name GeometryCollection = ''GeometryCollection''"

datatype 'f cell = Null | Str string | Num int | Flt 'f | Geo "'f geometry"

type_synonym 'f row = "(string \<times> 'f cell) list"

record 'f gdf =
  columns :: "string list"
  rows :: "'f row list"

definition cell_of :: "'f row \<Rightarrow> string \<Rightarrow> 'f cell" where
  "cell_of r col = (case map_of r col of None \<Rightarrow> Null | Some c \<Rightarrow> c)"

text \<open>\<open>gdf[col]\<close>: the column as a series of cells, one per row.\<close>

definition series :: "'f gdf \<Rightarrow> string \<Rightarrow> 'f cell list" where
  "series g col = map (\<lambda>r. cell_of r col) (rows g)"

text \<open>\<open>gdf[mask]\<close>: boolean indexing keeps the rows whose mask entry is true.\<close>

definition bool_index :: "'f gdf \<Rightarrow> bool list \<Rightarrow> 'f gdf" where
  "bool_index g keep = g\<lparr>rows := map fst (filter snd (zip (rows g) keep))\<rparr>"

text \<open>\<open>gdf.empty\<close>: true when either axis has length 0.\<close>

definition gdf_empty :: "'f gdf \<Rightarrow> bool" where
  "gdf_empty g = (rows g = [] \<or> columns g = [])"

text \<open>\<open>series.notnull()\<close>, \<open>series == v\<close> for a string \<open>v\<close>, and \<open>series.isin(vs)\<close>.\<close>

definition notnull :: "'f cell list \<Rightarrow> bool list" where
  "notnull s = map (\<lambda>c. c \<noteq> Null) s"

definition eq_str :: "'f cell list \<Rightarrow> string \<Rightarrow> bool list" where
  "eq_str s v = map (\<lambda>c. c = Str v) s"

definition isin :: "'f cell list \<Rightarrow> string list \<Rightarrow> bool list" where
  "isin s vs = map (\<lambda>c. c \<in> set (map Str vs)) s"

text \<open>
  \<open>gdf.geometry\<close> (the geometry column, \<open>None\<close> where it is missing) and \<open>gdf.geom_type\<close>.
\<close>

definition geom_of :: "'f row \<Rightarrow> 'f geometry option" where
  "geom_of r = (case cell_of r ''geometry'' of Geo s \<Rightarrow> Some s | _ \<Rightarrow> None)"

definition geometry :: "'f gdf \<Rightarrow> 'f geometry option list" where
  "geometry g = map geom_of (rows g)"

definition geom_type :: "'f gdf \<Rightarrow> string option list" where
  "geom_type g = map (map_option geom_type_name) (geometry g)"

text \<open>
  \<open>series.value_counts()\<close>: the distinct non-null values with the number of rows holding
  each; its \<open>index\<close> is the list of first components. pandas lists them by decreasing
  count; that order is not modelled, the program only tests membership in the index and
  prints the counts.
\<close>

definition value_counts :: "string option list \<Rightarrow> (string \<times> nat) list" where
  "value_counts ts =
     (let vs = List.map_filter id ts in map (\<lambda>t. (t, count_list vs t)) (remdups vs))"

text \<open>
  \<open>geoseries.y\<close> and \<open>geoseries.x\<close>: geopandas gives the coordinate of each point (NaN for a
  missing geometry) and raises \<open>ValueError\<close> as soon as one geometry present is not a point.
\<close>

datatype error = OSError | ValueError | QueryError string

definition not_point :: "'f geometry option \<Rightarrow> bool" where
  "not_point s = (case s of Some (Point x y) \<Rightarrow> False | Some _ \<Rightarrow> True | None \<Rightarrow> False)"

definition geometry_y :: "'f geometry option list \<Rightarrow> error + 'f cell list" where
  "geometry_y gs =
     (if filter not_point gs = []
      then Inr (map (\<lambda>s. case s of Some (Point x y) \<Rightarrow> Flt y | _ \<Rightarrow> Null) gs)
      else Inl ValueError)"

definition geometry_x :: "'f geometry option list \<Rightarrow> error + 'f cell list" where
  "geometry_x gs =
     (if filter not_point gs = []
      then Inr (map (\<lambda>s. case s of Some (Point x y) \<Rightarrow> Flt x | _ \<Rightarrow> Null) gs)
      else Inl ValueError)"

text \<open>\<open>gdf[col] = values\<close>: a new column is appended, an existing one overwritten.\<close>

definition assign :: "'f gdf \<Rightarrow> string \<Rightarrow> 'f cell list \<Rightarrow> 'f gdf" where
  "assign g col vals =
     g\<lparr>columns := (if col \<in> set (columns g) then columns g else columns g @ [col]),
       rows := map (\<lambda>(r, v). AList.update col v r) (zip (rows g) vals)\<rparr>"

text \<open>\<open>gdf.drop(columns=col, errors='ignore')\<close>.\<close>

definition drop_column :: "'f gdf \<Rightarrow> string \<Rightarrow> 'f gdf" where
  "drop_column g col =
     g\<lparr>columns := removeAll col (columns g), rows := map (AList.delete col) (rows g)\<rparr>"

text \<open>
  \<open>gdf.drop_duplicates(subset=col)\<close>: pandas marks a row as duplicated when the value of
  \<open>col\<close> has been seen in an earlier row (\<open>keep='first'\<close>, nulls equal to each other) and keeps
  the rows not marked.
\<close>

fun duplicated_from :: "'a list \<Rightarrow> 'a list \<Rightarrow> bool list" where
  "duplicated_from seen [] = []"
| "duplicated_from seen (x # xs) = (x \<in> set seen) # duplicated_from (x # seen) xs"

definition drop_duplicates :: "'f gdf \<Rightarrow> string \<Rightarrow> 'f gdf" where
  "drop_duplicates g col = bool_index g (map Not (duplicated_from [] (series g col)))"

section \<open>Paths\<close>

text \<open>\<open>os.path.join\<close> of two components and \<open>os.path.dirname\<close>, as \<open>posixpath\<close> defines them.\<close>

definition path_join :: "string \<Rightarrow> string \<Rightarrow> string" where
  "path_join a b =
     (if b \<noteq> [] \<and> hd b = CHR ''/'' then b
      else if a = [] \<or> last a = CHR ''/'' then a @ b
      else a @ ''/'' @ b)"

definition dirname :: "string \<Rightarrow> string" where
  "dirname p =
     (let head = rev (dropWhile (\<lambda>c. c \<noteq> CHR ''/'') (rev p))
      in if head \<noteq> [] \<and> head \<noteq> replicate (length head) CHR ''/''
         then rev (dropWhile (\<lambda>c. c = CHR ''/'') (rev head))
         else head)"

section \<open>The world: events, messages and the environment\<close>

text \<open>
  The category specification \<open>tags_dict\<close> is a dict, iterated in insertion order: a list of
  pairs. A selector is \<open>True\<close>/\<open>False\<close>, a string, a list or tuple of strings, or anything else.
\<close>

datatype selector = SelBool bool | SelStr string | SelSeq "string list" | SelOther

type_synonym tags = "(string \<times> selector) list"

text \<open>
  Every \<open>print\<close> of the program is a message, identified by its place in the source and
  carrying the values of the names it interpolates (the text of a caught exception apart).
\<close>

datatype msg =
    MsgExtracting string
  | MsgQuerying string
  | MsgQueryError string error
  | MsgNoMatching string
  | MsgGeomTypes "(string \<times> nat) list"
  | MsgKeepPoints nat
  | MsgNoPoints
  | MsgDupRemoved nat nat
  | MsgErrCombinedGeo
  | MsgErrCombinedCsv
  | MsgTagMissing string string
  | MsgNoFeatures string selector string
  | MsgErrSubsetGeo string
  | MsgErrSubsetCsv string

text \<open>
  What the program does to the outside world, in order: \<open>MakeDirs d\<close> is a call
  \<open>os.makedirs(d, exist_ok=True)\<close> that returned, after which the directory \<open>d\<close> exists;
  \<open>Queried q t\<close> is the call of \<open>ox.features_from_place(q, tags=t)\<close>; \<open>WroteFile p g\<close> and
  \<open>WroteCsv p g\<close> are a \<open>to_file\<close> and a \<open>to_csv\<close> that wrote \<open>g\<close> at the path \<open>p\<close>;
  \<open>Printed m\<close> is a line on standard output.
\<close>

datatype 'f event =
    MakeDirs string
  | Queried string tags
  | WroteFile string "'f gdf"
  | WroteCsv string "'f gdf"
  | Printed msg

text \<open>
  The collaborators the program does not own. Each one sees the events so far:
  whether \<open>os.makedirs\<close> raises, what the feature query returns (an exception, \<open>None\<close> or a
  collection), what \<open>to_crs\<close> returns (\<open>None\<close> when it raises), and whether a writer raises.
\<close>

record 'f env =
  makedirs_raises :: "'f event list \<Rightarrow> string \<Rightarrow> bool"
  features_from_place :: "'f event list \<Rightarrow> string \<Rightarrow> tags \<Rightarrow> error + 'f gdf option"
  to_crs :: "'f gdf \<Rightarrow> 'f gdf option"
  to_file_raises :: "'f event list \<Rightarrow> string \<Rightarrow> 'f gdf \<Rightarrow> bool"
  to_csv_raises :: "'f event list \<Rightarrow> string \<Rightarrow> 'f gdf \<Rightarrow> bool"

text \<open>
  Every operation below takes the events so far and returns the events it adds.
  \<open>os.makedirs\<close> of the empty path raises \<open>FileNotFoundError\<close>, an \<open>OSError\<close>. Whatever
  exception \<open>os.makedirs\<close> raises is recorded as \<open>OSError\<close>: the program never looks at
  its class.
\<close>

definition makedirs :: "'f env \<Rightarrow> string \<Rightarrow> 'f event list \<Rightarrow> error + 'f event list" where
  "makedirs env path w =
     (if path = [] \<or> makedirs_raises env w path then Inl OSError else Inr [MakeDirs path])"

text \<open>
  The two \<open>try\<close> blocks around a write: \<open>os.makedirs(os.path.dirname(path) or output_folder)\<close>
  and the write; any exception is caught and reported by \<open>errmsg\<close>.
\<close>

definition try_to_file ::
  "'f env \<Rightarrow> string \<Rightarrow> string \<Rightarrow> 'f gdf \<Rightarrow> msg \<Rightarrow> 'f event list \<Rightarrow> 'f event list" where
  "try_to_file env path output_folder g errmsg w =
     (case makedirs env (if dirname path = [] then output_folder else dirname path) w of
        Inl e \<Rightarrow> [Printed errmsg]
      | Inr evs \<Rightarrow>
          if to_file_raises env (w @ evs) path g then evs @ [Printed errmsg]
          else evs @ [WroteFile path g])"

definition try_to_csv ::
  "'f env \<Rightarrow> string \<Rightarrow> string \<Rightarrow> 'f gdf \<Rightarrow> msg \<Rightarrow> 'f event list \<Rightarrow> 'f event list" where
  "try_to_csv env path output_folder g errmsg w =
     (case makedirs env (if dirname path = [] then output_folder else dirname path) w of
        Inl e \<Rightarrow> [Printed errmsg]
      | Inr evs \<Rightarrow>
          if to_csv_raises env (w @ evs) path (drop_column g ''geometry'')
          then evs @ [Printed errmsg]
          else evs @ [WroteCsv path (drop_column g ''geometry'')])"

section \<open>The Region Extractor\<close>

text \<open>Line 22: \<open>" ".join(place_name.strip().split())\<close>.\<close>

definition query_place :: "string \<Rightarrow> string" where
  "query_place place_name = py_join '' '' (py_split (py_strip place_name))"

text \<open>Lines 41-51: keep the points when there is one.\<close>

definition geometry_filter :: "'f gdf \<Rightarrow> 'f gdf \<times> msg list" where
  "geometry_filter g =
     (if ''geometry'' \<in> set (columns g) then
        let geom_types = value_counts (geom_type g) in
        if ''Point'' \<in> set (map fst geom_types) then
          let g' = bool_index g (map (\<lambda>t. t = Some ''Point'') (geom_type g))
          in (g', [MsgGeomTypes geom_types, MsgKeepPoints (length (rows g'))])
        else (g, [MsgGeomTypes geom_types, MsgNoPoints])
      else (g, []))"

text \<open>Lines 53-58: drop missing geometries, add latitude and longitude.\<close>

definition extract_coords :: "'f gdf \<Rightarrow> error + 'f gdf" where
  "extract_coords g =
     (if ''geometry'' \<in> set (columns g) then
        let g1 = bool_index g (map (\<lambda>s. s \<noteq> None) (geometry g)) in
        (case geometry_y (geometry g1) of
           Inl e \<Rightarrow> Inl e
         | Inr ys \<Rightarrow>
             let g2 = assign g1 ''latitude'' ys in
             (case geometry_x (geometry g2) of
                Inl e \<Rightarrow> Inl e
              | Inr xs \<Rightarrow> Inr (assign g2 ''longitude'' xs)))
      else Inr g)"

text \<open>Lines 60-64: deduplication by \<open>osmid\<close>.\<close>

definition dedup_stage :: "'f gdf \<Rightarrow> 'f gdf \<times> msg list" where
  "dedup_stage g =
     (if ''osmid'' \<in> set (columns g) then
        let before = length (rows g);
            g' = drop_duplicates g ''osmid''
        in (g', [MsgDupRemoved before (length (rows g'))])
      else (g, []))"

text \<open>Lines 67-83: the names of the combined files and the two writes.\<close>

definition combined_fname_geo :: "string \<Rightarrow> string" where
  "combined_fname_geo place_short = place_short @ ''_all_amenities.geojson''"

definition combined_fname_csv :: "string \<Rightarrow> string" where
  "combined_fname_csv place_short =
     py_replace ''.geojson'' ''.csv'' (combined_fname_geo place_short)"

definition export_combined ::
  "'f env \<Rightarrow> string \<Rightarrow> string \<Rightarrow> 'f gdf \<Rightarrow> 'f event list \<Rightarrow> 'f event list" where
  "export_combined env place_short output_folder g w =
     (let combined_path_geo = path_join output_folder (combined_fname_geo place_short);
          e1 = try_to_file env combined_path_geo output_folder g MsgErrCombinedGeo w;
          combined_path_csv = path_join output_folder (combined_fname_csv place_short);
          e2 = try_to_csv env combined_path_csv output_folder g MsgErrCombinedCsv (w @ e1)
      in e1 @ e2)"

text \<open>Lines 91-99: the subset of one category.\<close>

fun build_subset :: "'f gdf \<Rightarrow> string \<Rightarrow> selector \<Rightarrow> 'f gdf" where
  "build_subset g key (SelBool True) = bool_index g (notnull (series g key))"
| "build_subset g key (SelStr v) = bool_index g (eq_str (series g key) v)"
| "build_subset g key (SelSeq vs) = bool_index g (isin (series g key) vs)"
| "build_subset g key _ = \<lparr>columns = columns g, rows = []\<rparr>"

text \<open>Lines 105-120: the names of the files of one category and the two writes.\<close>

definition fname_geojson :: "string \<Rightarrow> string \<Rightarrow> string" where
  "fname_geojson place_short key = place_short @ ''_'' @ clean_name key @ ''.geojson''"

definition fname_csv :: "string \<Rightarrow> string \<Rightarrow> string" where
  "fname_csv place_short key = py_replace ''.geojson'' ''.csv'' (fname_geojson place_short key)"

definition export_subset ::
  "'f env \<Rightarrow> string \<Rightarrow> string \<Rightarrow> string \<Rightarrow> 'f gdf \<Rightarrow> 'f event list \<Rightarrow> 'f event list" where
  "export_subset env place_short output_folder key subset_gdf w =
     (let path_geojson = path_join output_folder (fname_geojson place_short key);
          e1 = try_to_file env path_geojson output_folder subset_gdf (MsgErrSubsetGeo key) w;
          path_csv = path_join output_folder (fname_csv place_short key);
          e2 = try_to_csv env path_csv output_folder subset_gdf (MsgErrSubsetCsv key) (w @ e1)
      in e1 @ e2)"

text \<open>Lines 86-120: the loop over the categories.\<close>

fun export_categories ::
  "'f env \<Rightarrow> string \<Rightarrow> string \<Rightarrow> string \<Rightarrow> 'f gdf \<Rightarrow> tags \<Rightarrow> 'f event list \<Rightarrow> 'f event list"
where
  "export_categories env qp place_short output_folder g [] w = []"
| "export_categories env qp place_short output_folder g ((key, values) # rest) w =
     (let evs =
        (if key \<notin> set (columns g) then [Printed (MsgTagMissing key qp)]
         else
           let subset_gdf = build_subset g key values in
           if gdf_empty subset_gdf then [Printed (MsgNoFeatures key values qp)]
           else export_subset env place_short output_folder key subset_gdf w)
      in evs @ export_categories env qp place_short output_folder g rest (w @ evs))"

text \<open>Lines 35-122: what happens to a collection that was retrieved and is not empty.\<close>

definition process_features ::
  "'f env \<Rightarrow> string \<Rightarrow> tags \<Rightarrow> string \<Rightarrow> 'f gdf \<Rightarrow> 'f event list
     \<Rightarrow> (error + 'f gdf option) \<times> 'f event list" where
  "process_features env qp tags_dict output_folder gdf0 w =
     (let g1 = (case to_crs env gdf0 of Some g \<Rightarrow> g | None \<Rightarrow> gdf0);
          (g2, m2) = geometry_filter g1;
          e2 = map Printed m2
      in (case extract_coords g2 of
            Inl e \<Rightarrow> (Inl e, e2)
          | Inr g3 \<Rightarrow>
              let (g4, m4) = dedup_stage g3;
                  e4 = e2 @ map Printed m4;
                  place_short = clean_name qp;
                  e5 = e4 @ export_combined env place_short output_folder g4 (w @ e4);
                  e6 = e5 @ export_categories env qp place_short output_folder g4 tags_dict
                              (w @ e5)
              in (Inr (Some g4), e6)))"

text \<open>
  Lines 16-33 and the whole function: the result is an exception that escapes (\<open>Inl\<close>),
  \<open>None\<close> or the final collection, with the events added to \<open>w\<close>.
\<close>

definition extract_amenities_for_place ::
  "'f env \<Rightarrow> string \<Rightarrow> tags \<Rightarrow> string \<Rightarrow> 'f event list
     \<Rightarrow> (error + 'f gdf option) \<times> 'f event list" where
  "extract_amenities_for_place env place_name tags_dict output_folder0 w =
     (let output_folder = py_replace '','' '''' output_folder0 in
      case makedirs env output_folder w of
        Inl e \<Rightarrow> (Inl e, [])
      | Inr e1 \<Rightarrow>
          let qp = query_place place_name;
              e2 = e1 @ [Printed (MsgQuerying qp)];
              e3 = e2 @ [Queried qp tags_dict]
          in (case features_from_place env (w @ e2) qp tags_dict of
                Inl e \<Rightarrow> (Inr None, e3 @ [Printed (MsgQueryError qp e)])
              | Inr None \<Rightarrow> (Inr None, e3 @ [Printed (MsgNoMatching qp)])
              | Inr (Some gdf_all) \<Rightarrow>
                  if gdf_empty gdf_all then (Inr None, e3 @ [Printed (MsgNoMatching qp)])
                  else
                    let (res, e4) =
                          process_features env qp tags_dict output_folder gdf_all (w @ e3)
                    in (res, e3 @ e4)))"

section \<open>The Batch Driver\<close>

text \<open>
  Lines 125-130. The loop has no exception handler: an exception that escapes the
  extractor ends the loop.
\<close>

definition province_folder :: "string \<Rightarrow> string \<Rightarrow> string" where
  "province_folder output_root_folder prov = path_join output_root_folder (clean_name prov)"

fun extract_for_provinces ::
  "'f env \<Rightarrow> string list \<Rightarrow> tags \<Rightarrow> string \<Rightarrow> 'f event list \<Rightarrow> (error + unit) \<times> 'f event list"
where
  "extract_for_provinces env [] tags_dict output_root_folder w = (Inr (), [])"
| "extract_for_provinces env (prov # rest) tags_dict output_root_folder w =
     (let e0 = [Printed (MsgExtracting (clean_name prov))];
          (res, e1) = extract_amenities_for_place env prov tags_dict
                        (province_folder output_root_folder prov) (w @ e0)
      in (case res of
            Inl e \<Rightarrow> (Inl e, e0 @ e1)
          | Inr r \<Rightarrow>
              let (res', e2) = extract_for_provinces env rest tags_dict output_root_folder
                                 (w @ e0 @ e1)
              in (res', e0 @ e1 @ e2)))"

section \<open>Notions used to state the properties\<close>

text \<open>A row whose geometry is a point, and a collection that contains a point geometry.\<close>

definition is_point_row :: "'f row \<Rightarrow> bool" where
  "is_point_row r = (case geom_of r of Some (Point x y) \<Rightarrow> True | _ \<Rightarrow> False)"

definition contains_point :: "'f gdf \<Rightarrow> bool" where
  "contains_point g = (''geometry'' \<in> set (columns g) \<and> filter is_point_row (rows g) \<noteq> [])"

text \<open>The entity identifier of a row.\<close>

definition osmid :: "'f row \<Rightarrow> 'f cell" where
  "osmid r = cell_of r ''osmid''"

text \<open>
  The rows whose key (under \<open>f\<close>) is neither in \<open>seen\<close> nor carried by an earlier row:
  the first occurrences, in order.
\<close>

fun first_occurrences :: "('a \<Rightarrow> 'k) \<Rightarrow> 'k list \<Rightarrow> 'a list \<Rightarrow> 'a list" where
  "first_occurrences f seen [] = []"
| "first_occurrences f seen (r # rs) =
     (if f r \<in> set seen then first_occurrences f seen rs
      else r # first_occurrences f (f r # seen) rs)"

text \<open>
  The output location can be created: \<open>os.makedirs\<close> of the comma-stripped path returns.
  \<open>query_outcome\<close> is what the feature query returns when the extractor, started on the
  events \<open>w\<close>, reaches it; \<open>no_features\<close> holds of an exception, of \<open>None\<close> and of an empty
  collection.
\<close>

definition creatable :: "'f env \<Rightarrow> string \<Rightarrow> 'f event list \<Rightarrow> bool" where
  "creatable env output_folder w =
     (py_replace '','' '''' output_folder \<noteq> []
      \<and> \<not> makedirs_raises env w (py_replace '','' '''' output_folder))"

definition query_outcome ::
  "'f env \<Rightarrow> string \<Rightarrow> tags \<Rightarrow> string \<Rightarrow> 'f event list \<Rightarrow> error + 'f gdf option" where
  "query_outcome env place_name tags_dict output_folder w =
     features_from_place env
       (w @ [MakeDirs (py_replace '','' '''' output_folder),
             Printed (MsgQuerying (query_place place_name))])
       (query_place place_name) tags_dict"

definition no_features :: "error + 'f gdf option \<Rightarrow> bool" where
  "no_features r = (case r of Inl e \<Rightarrow> True | Inr None \<Rightarrow> True | Inr (Some g) \<Rightarrow> gdf_empty g)"

text \<open>The paths of the files written and of the directories created by a list of events.\<close>

fun written_path :: "'f event \<Rightarrow> string option" where
  "written_path (WroteFile p g) = Some p"
| "written_path (WroteCsv p g) = Some p"
| "written_path _ = None"

fun made_dir :: "'f event \<Rightarrow> string option" where
  "made_dir (MakeDirs p) = Some p"
| "made_dir _ = None"

definition files_written :: "'f event list \<Rightarrow> string list" where
  "files_written evs = List.map_filter written_path evs"

definition dirs_made :: "'f event list \<Rightarrow> string list" where
  "dirs_made evs = List.map_filter made_dir evs"



text \<open>The file names the extractor can use for a query name and a category specification.\<close>

definition output_names :: "string \<Rightarrow> tags \<Rightarrow> string list" where
  "output_names qp tags_dict =
     [combined_fname_geo (clean_name qp), combined_fname_csv (clean_name qp)]
     @ concat (map (\<lambda>kv. [fname_geojson (clean_name qp) (fst kv), fname_csv (clean_name qp) (fst kv)])
         tags_dict)"

text \<open>
  An event stays within the directory \<open>d\<close> and the file names \<open>N\<close>: a file is written at
  \<open>d\<close> joined with one of the names, a directory created is \<open>d\<close> or the \<open>dirname\<close> of such
  a path.
\<close>

definition event_within :: "string \<Rightarrow> string set \<Rightarrow> 'f event \<Rightarrow> bool" where
  "event_within d N e =
     (case e of
        MakeDirs p \<Rightarrow> p = d \<or> p \<in> dirname ` path_join d ` N
      | WroteFile p g \<Rightarrow> p \<in> path_join d ` N
      | WroteCsv p g \<Rightarrow> p \<in> path_join d ` N
      | _ \<Rightarrow> True)"






text \<open>
  The file names built on a base name as the extractor builds them (the CSV name is the
  GeoJSON name with \<open>.geojson\<close> replaced), and the file names of the layout
  \<open>base_all_amenities.geojson\<close>, \<open>base_all_amenities.csv\<close>, \<open>base_category.geojson\<close>,
  \<open>base_category.csv\<close> with the category normalized.
\<close>

definition names_with_base :: "string \<Rightarrow> tags \<Rightarrow> string list" where
  "names_with_base base tags_dict =
     [base @ ''_all_amenities.geojson'',
      py_replace ''.geojson'' ''.csv'' (base @ ''_all_amenities.geojson'')]
     @ concat (map (\<lambda>kv. [base @ ''_'' @ clean_name (fst kv) @ ''.geojson'',
                           py_replace ''.geojson'' ''.csv''
                             (base @ ''_'' @ clean_name (fst kv) @ ''.geojson'')])
         tags_dict)"

definition layout_names :: "string \<Rightarrow> tags \<Rightarrow> string list" where
  "layout_names base tags_dict =
     [base @ ''_all_amenities.geojson'', base @ ''_all_amenities.csv'']
     @ concat (map (\<lambda>kv. [base @ ''_'' @ clean_name (fst kv) @ ''.geojson'',
                           base @ ''_'' @ clean_name (fst kv) @ ''.csv''])
         tags_dict)"

section \<open>Example collections\<close>

text \<open>
  Three point records with amenity values \<open>cafe\<close>, null, \<open>cafe\<close> and identifiers 1, 1, 2;
  the same with a polygon and a missing geometry added; polygons only; one record.
\<close>

definition example_points :: "int gdf" where
  "example_points =
     \<lparr>columns = [''geometry'', ''amenity'', ''osmid''],
      rows = [[(''geometry'', Geo (Point 10 50)), (''amenity'', Str ''cafe''), (''osmid'', Num 1)],
              [(''geometry'', Geo (Point 11 51)), (''amenity'', Null), (''osmid'', Num 1)],
              [(''geometry'', Geo (Point 12 52)), (''amenity'', Str ''cafe''), (''osmid'', Num 2)]]\<rparr>"

definition example_mixed :: "int gdf" where
  "example_mixed =
     \<lparr>columns = [''geometry'', ''amenity''],
      rows = [[(''geometry'', Geo Polygon), (''amenity'', Str ''school'')],
              [(''geometry'', Geo (Point 10 50)), (''amenity'', Str ''cafe'')],
              [(''geometry'', Null), (''amenity'', Str ''bank'')],
              [(''geometry'', Geo (Point 12 52)), (''amenity'', Null)]]\<rparr>"

definition example_polygons :: "int gdf" where
  "example_polygons =
     \<lparr>columns = [''geometry'', ''amenity''],
      rows = [[(''geometry'', Geo Polygon), (''amenity'', Str ''school'')],
              [(''geometry'', Geo MultiPolygon), (''amenity'', Str ''park'')]]\<rparr>"

definition example_single :: "int gdf" where
  "example_single =
     \<lparr>columns = [''geometry'', ''amenity''],
      rows = [[(''geometry'', Geo (Point 10 50)), (''amenity'', Str ''cafe'')]]\<rparr>"

text \<open>
  Example environments: one where every query fails and nothing else does; one where the
  query returns the three points and nothing fails; one where the directory of region
  \<open>A\<close> under \<open>out\<close> cannot be created.
\<close>

definition env_query_fails :: "int env" where
  "env_query_fails =
     \<lparr>makedirs_raises = (\<lambda>w p. False),
      features_from_place = (\<lambda>w q t. Inl (QueryError ''no such place'')),
      to_crs = (\<lambda>g. None),
      to_file_raises = (\<lambda>w p g. False),
      to_csv_raises = (\<lambda>w p g. False)\<rparr>"

definition env_points :: "int env" where
  "env_points =
     \<lparr>makedirs_raises = (\<lambda>w p. False),
      features_from_place = (\<lambda>w q t. Inr (Some example_points)),
      to_crs = (\<lambda>g. Some g),
      to_file_raises = (\<lambda>w p g. False),
      to_csv_raises = (\<lambda>w p g. False)\<rparr>"


section \<open>Properties\<close>

lemma py_replace_char:
  "py_replace [c] new s = concat (map (\<lambda>x. if x = c then new else [x]) s)"
  by (induction s) auto

lemma py_replace_char_char:
  "py_replace [a] [b] s = map (swap_char a b) s"
  by (induction s) (auto simp: swap_char_def)

lemma py_replace_char_empty:
  "py_replace [a] [] s = filter (\<lambda>x. x \<noteq> a) s"
  by (induction s) auto

lemma clean_name_alt:
  "clean_name s = map (swap_char CHR '' '' CHR ''_'')
     (py_strip (map (swap_char CHR ''/'' CHR ''_'') (filter (\<lambda>x. x \<noteq> CHR '','') s)))"
  by (simp add: clean_name_def py_replace_char_char py_replace_char_empty)


lemma set_py_strip: "set (py_strip s) \<subseteq> set s"
proof
  fix x assume "x \<in> set (py_strip s)"
  then have "x \<in> set (dropWhile isspace (rev (dropWhile isspace s)))"
    by (simp add: py_strip_def)
  then have "x \<in> set (dropWhile isspace s)"
    using set_dropWhileD by fastforce
  then show "x \<in> set s"
    by (rule set_dropWhileD)
qed

lemma isspace_space: "isspace CHR '' ''"
  by (simp add: isspace_def)

lemma not_isspace_underscore: "\<not> isspace CHR ''_''"
  by (simp add: isspace_def)

lemma py_strip_fixed:
  assumes "s = [] \<or> (\<not> isspace (hd s) \<and> \<not> isspace (last s))"
  shows "py_strip s = s"
proof (cases "s = []")
  case True
  then show ?thesis by (simp add: py_strip_def)
next
  case False
  with assms have h: "\<not> isspace (hd s)" and l: "\<not> isspace (last s)" by auto
  from False h have a: "dropWhile isspace s = s"
    by (cases s) auto
  from False l have b: "dropWhile isspace (rev s) = rev s"
    by (cases "rev s") (auto simp: last_rev hd_rev)
  show ?thesis by (simp add: py_strip_def a b)
qed

lemma py_strip_ends:
  "py_strip s = [] \<or> (\<not> isspace (hd (py_strip s)) \<and> \<not> isspace (last (py_strip s)))"
proof (cases "py_strip s = []")
  case True
  then show ?thesis by simp
next
  case False
  let ?t = "dropWhile isspace s"
  let ?u = "dropWhile isspace (rev ?t)"
  from False have u: "?u \<noteq> []" by (simp add: py_strip_def)
  then have lastok: "\<not> isspace (hd ?u)" by (rule hd_dropWhile)
  have t: "?t \<noteq> []"
  proof
    assume e: "?t = []"
    have "?u = []" by (simp only: e rev.simps dropWhile.simps)
    with u show False by simp
  qed
  then have hdt: "\<not> isspace (hd ?t)" by (rule hd_dropWhile)
  have "last ?u = last (rev ?t)"
    using u by (metis last_appendR takeWhile_dropWhile_id)
  then have "last ?u = hd ?t" using t by (simp add: last_rev)
  with hdt have "\<not> isspace (last ?u)" by simp
  with lastok u show ?thesis
    by (simp add: py_strip_def hd_rev last_rev)
qed

lemma clean_name_no_comma: "CHR '','' \<notin> set (clean_name s)"
proof -
  have "set (clean_name s) \<subseteq> swap_char CHR '' '' CHR ''_'' ` swap_char CHR ''/'' CHR ''_'' ` set (filter (\<lambda>x. x \<noteq> CHR '','') s)"
    using set_py_strip[of "map (swap_char CHR ''/'' CHR ''_'') (filter (\<lambda>x. x \<noteq> CHR '','') s)"]
    by (auto simp: clean_name_alt)
  then show ?thesis by (auto simp: swap_char_def split: if_splits)
qed

lemma clean_name_no_slash: "CHR ''/'' \<notin> set (clean_name s)"
proof -
  have "set (clean_name s) \<subseteq> swap_char CHR '' '' CHR ''_'' ` swap_char CHR ''/'' CHR ''_'' ` set (filter (\<lambda>x. x \<noteq> CHR '','') s)"
    using set_py_strip[of "map (swap_char CHR ''/'' CHR ''_'') (filter (\<lambda>x. x \<noteq> CHR '','') s)"]
    by (auto simp: clean_name_alt)
  then show ?thesis by (auto simp: swap_char_def split: if_splits)
qed

lemma clean_name_no_space: "CHR '' '' \<notin> set (clean_name s)"
  by (auto simp: clean_name_alt swap_char_def split: if_splits)

lemma clean_name_ends:
  "clean_name s = [] \<or> (\<not> isspace (hd (clean_name s)) \<and> \<not> isspace (last (clean_name s)))"
proof -
  let ?u = "py_strip (map (swap_char CHR ''/'' CHR ''_'') (filter (\<lambda>x. x \<noteq> CHR '','') s))"
  have c: "clean_name s = map (swap_char CHR '' '' CHR ''_'') ?u" by (rule clean_name_alt)
  have sp: "\<And>x. \<not> isspace x \<Longrightarrow> \<not> isspace (swap_char CHR '' '' CHR ''_'' x)"
    by (simp add: swap_char_def not_isspace_underscore)
  show ?thesis
  proof (cases "?u = []")
    case True then show ?thesis by (simp add: c)
  next
    case False
    with py_strip_ends[of "map (swap_char CHR ''/'' CHR ''_'') (filter (\<lambda>x. x \<noteq> CHR '','') s)"]
    have "\<not> isspace (hd ?u)" "\<not> isspace (last ?u)" by auto
    with False show ?thesis
      by (simp add: c hd_map last_map sp)
  qed
qed

lemma map_swap_id: "a \<notin> set s \<Longrightarrow> map (swap_char a b) s = s"
  by (induction s) (auto simp: swap_char_def)


text \<open>
  Claim C6. For every input string, the output of \<open>clean_name\<close> contains no comma and no
  path separator (the character \<open>/\<close>, the one the function replaces), and applying
  \<open>clean_name\<close> to its own output returns that output unchanged.
\<close>

theorem clean_name_safe_idempotent:
  "CHR '','' \<notin> set (clean_name s) \<and> CHR ''/'' \<notin> set (clean_name s)
   \<and> clean_name (clean_name s) = clean_name s"
proof -
  let ?t = "clean_name s"
  have 1: "filter (\<lambda>x. x \<noteq> CHR '','') ?t = ?t"
    using clean_name_no_comma[of s] by (auto simp: filter_id_conv)
  have 2: "map (swap_char CHR ''/'' CHR ''_'') ?t = ?t"
    using clean_name_no_slash by (rule map_swap_id)
  have 3: "py_strip ?t = ?t"
    using clean_name_ends by (rule py_strip_fixed)
  have 4: "map (swap_char CHR '' '' CHR ''_'') ?t = ?t"
    using clean_name_no_space by (rule map_swap_id)
  have "clean_name ?t = ?t"
    by (subst clean_name_alt) (simp only: 1 2 3 4)
  with clean_name_no_comma clean_name_no_slash show ?thesis by simp
qed


subsection \<open>Boolean indexing is filtering\<close>

lemma zip_map_filter: "map fst (filter snd (zip xs (map P xs))) = filter P xs"
  by (induction xs) auto

lemma bool_index_rows:
  "bool_index g (map P (rows g)) = g\<lparr>rows := filter P (rows g)\<rparr>"
  by (simp add: bool_index_def zip_map_filter)

lemma bool_index_series:
  "bool_index g (map Q (series g key)) = g\<lparr>rows := filter (\<lambda>r. Q (cell_of r key)) (rows g)\<rparr>"
proof -
  have "map Q (series g key) = map (\<lambda>r. Q (cell_of r key)) (rows g)"
    by (simp add: series_def)
  then show ?thesis by (simp add: bool_index_rows)
qed

lemma build_subset_columns: "columns (build_subset g key sel) = columns g"
proof (cases sel)
  case (SelBool b)
  then show ?thesis by (cases b) (simp_all add: bool_index_def)
qed (simp_all add: bool_index_def)

lemma build_subset_true:
  "rows (build_subset g key (SelBool True)) = filter (\<lambda>r. cell_of r key \<noteq> Null) (rows g)"
  by (simp add: notnull_def bool_index_series)

lemma build_subset_str:
  "rows (build_subset g key (SelStr v)) = filter (\<lambda>r. cell_of r key = Str v) (rows g)"
  by (simp add: eq_str_def bool_index_series)

lemma build_subset_seq:
  "rows (build_subset g key (SelSeq vs)) = filter (\<lambda>r. cell_of r key \<in> Str ` set vs) (rows g)"
  by (simp add: isin_def bool_index_series)

lemma build_subset_other:
  "rows (build_subset g key (SelBool False)) = [] \<and> rows (build_subset g key SelOther) = []"
  by simp

lemma build_subset_subseq: "subseq (rows (build_subset g key sel)) (rows g)"
proof (cases sel)
  case (SelBool b)
  then show ?thesis using build_subset_true[of g key] by (cases b) simp_all
next
  case (SelStr v)
  then show ?thesis using build_subset_str[of g key v] by simp
next
  case (SelSeq vs)
  then show ?thesis using build_subset_seq[of g key vs] by simp
next
  case SelOther
  then show ?thesis by simp
qed

text \<open>
  Claim C3. For a collection and a category key among its columns, the subset built for the
  key is exactly: the records where the column is not null, for the selector \<open>True\<close>; the
  records where the column equals the selector, for a string; the records whose value is
  a member of the selector, for a sequence; and the empty collection (same columns, no
  record) for any other selector.
\<close>

theorem subset_selector_semantics:
  "key \<in> set (columns g) \<Longrightarrow>
     build_subset g key (SelBool True) = g\<lparr>rows := filter (\<lambda>r. cell_of r key \<noteq> Null) (rows g)\<rparr>
   \<and> build_subset g key (SelStr v) = g\<lparr>rows := filter (\<lambda>r. cell_of r key = Str v) (rows g)\<rparr>
   \<and> build_subset g key (SelSeq vs)
       = g\<lparr>rows := filter (\<lambda>r. cell_of r key \<in> Str ` set vs) (rows g)\<rparr>
   \<and> build_subset g key (SelBool False) = g\<lparr>rows := []\<rparr>
   \<and> build_subset g key SelOther = g\<lparr>rows := []\<rparr>"
  by (simp add: notnull_def eq_str_def isin_def bool_index_series)

theorem subset_selector_semantics_witness:
  "''amenity'' \<in> set (columns example_mixed)
   \<and> rows (build_subset example_mixed ''amenity'' (SelBool True))
       = [[(''geometry'', Geo Polygon), (''amenity'', Str ''school'')],
          [(''geometry'', Geo (Point 10 50)), (''amenity'', Str ''cafe'')],
          [(''geometry'', Null), (''amenity'', Str ''bank'')]]
   \<and> rows (build_subset example_mixed ''amenity'' (SelStr ''cafe''))
       = [[(''geometry'', Geo (Point 10 50)), (''amenity'', Str ''cafe'')]]
   \<and> rows (build_subset example_mixed ''amenity'' (SelSeq [''bank'', ''school'']))
       = [[(''geometry'', Geo Polygon), (''amenity'', Str ''school'')],
          [(''geometry'', Null), (''amenity'', Str ''bank'')]]
   \<and> rows (build_subset example_mixed ''amenity'' SelOther) = []"
proof -
  have h: "''amenity'' \<in> set (columns example_mixed)"
    by (simp add: example_mixed_def)
  show ?thesis
    using h subset_selector_semantics [OF h, of "''cafe''" "[''bank'', ''school'']"]
    by (simp add: example_mixed_def cell_of_def)
qed

text \<open>
  Claim C8 says that the subset built for a category is always a strict subset of the
  collection. It is not: when every record matches the selector, the subset is the whole
  collection.
\<close>

theorem subset_not_strict_counterexample:
  "build_subset example_single ''amenity'' (SelBool True) = example_single
   \<and> \<not> set (rows (build_subset example_single ''amenity'' (SelBool True)))
         \<subset> set (rows example_single)"
  by (simp add: example_single_def bool_index_def series_def notnull_def cell_of_def)

text \<open>
  Claim C8, amended. For a category key among the columns, the subset has the columns of
  the collection and its records are records of the collection, in the same order:
  a sub-collection, which may be the whole collection.
\<close>

theorem subset_is_subcollection:
  "key \<in> set (columns g) \<Longrightarrow>
     columns (build_subset g key sel) = columns g
   \<and> subseq (rows (build_subset g key sel)) (rows g)
   \<and> set (rows (build_subset g key sel)) \<subseteq> set (rows g)"
  using build_subset_subseq[of g key sel] build_subset_columns[of g key sel]
  by (auto dest: list_emb_set)

theorem subset_is_subcollection_witness:
  "''amenity'' \<in> set (columns example_mixed)
   \<and> columns (build_subset example_mixed ''amenity'' (SelStr ''cafe'')) = [''geometry'', ''amenity'']
   \<and> subseq (rows (build_subset example_mixed ''amenity'' (SelStr ''cafe''))) (rows example_mixed)
   \<and> set (rows (build_subset example_mixed ''amenity'' (SelStr ''cafe'')))
       \<subseteq> set (rows example_mixed)"
proof -
  have h: "''amenity'' \<in> set (columns example_mixed)"
    by (simp add: example_mixed_def)
  have c: "columns example_mixed = [''geometry'', ''amenity'']"
    by (simp add: example_mixed_def)
  show ?thesis
    using h subset_is_subcollection [OF h, of "SelStr ''cafe''"] by (simp add: c)
qed

subsection \<open>The geometry filter\<close>

lemma geom_type_point:
  "(map_option geom_type_name s = Some ''Point'') = (case s of Some (Point x y) \<Rightarrow> True | _ \<Rightarrow> False)"
proof (cases s)
  case None
  then show ?thesis by simp
next
  case (Some a)
  then show ?thesis by (cases a) simp_all
qed

lemma value_counts_index: "set (map fst (value_counts ts)) = {t. Some t \<in> set ts}"
proof -
  have "set (List.map_filter id ts) = {t. Some t \<in> set ts}"
    by (induction ts) (auto split: option.splits)
  then show ?thesis
    by (simp add: value_counts_def Let_def comp_def)
qed

lemma point_in_index:
  "(''Point'' \<in> set (map fst (value_counts (geom_type g)))) = (filter is_point_row (rows g) \<noteq> [])"
proof -
  have k: "\<And>r. (map_option geom_type_name (geom_of r) = Some ''Point'') = is_point_row r"
    by (simp only: geom_type_point is_point_row_def)
  have "(Some ''Point'' \<in> set (geom_type g))
      = (\<exists>r\<in>set (rows g). map_option geom_type_name (geom_of r) = Some ''Point'')"
    unfolding geom_type_def geometry_def by (force simp del: map_option_eq_Some)
  then have "(Some ''Point'' \<in> set (geom_type g)) = (\<exists>r\<in>set (rows g). is_point_row r)"
    by (simp only: k)
  moreover have "(''Point'' \<in> set (map fst (value_counts (geom_type g))))
      = (Some ''Point'' \<in> set (geom_type g))"
    by (simp only: value_counts_index mem_Collect_eq)
  ultimately show ?thesis
    by (simp only: filter_empty_conv) blast
qed

lemma keep_points_rows:
  "bool_index g (map (\<lambda>t. t = Some ''Point'') (geom_type g)) = g\<lparr>rows := filter is_point_row (rows g)\<rparr>"
proof -
  have "map (\<lambda>t. t = Some ''Point'') (geom_type g) = map is_point_row (rows g)"
    by (simp add: geom_type_def geometry_def is_point_row_def geom_type_point comp_def
        del: map_option_eq_Some)
  then show ?thesis by (simp add: bool_index_rows)
qed

subsection \<open>Deduplication\<close>

lemma first_occurrences_seen_set:
  "set seen = set seen' \<Longrightarrow> first_occurrences f seen rs = first_occurrences f seen' rs"
proof (induction rs arbitrary: seen seen')
  case Nil
  then show ?case by simp
next
  case (Cons a rs)
  from Cons.prems have "set (f a # seen) = set (f a # seen')" by simp
  then have "first_occurrences f (f a # seen) rs = first_occurrences f (f a # seen') rs"
    by (rule Cons.IH)
  moreover have "first_occurrences f seen rs = first_occurrences f seen' rs"
    using Cons.prems by (rule Cons.IH)
  ultimately show ?case using Cons.prems by simp
qed

lemma drop_mask_first_occurrences:
  "map fst (filter snd (zip rs (map Not (duplicated_from seen (map f rs)))))
     = first_occurrences f seen rs"
proof (induction rs arbitrary: seen)
  case Nil
  then show ?case by simp
next
  case (Cons a rs)
  show ?case
  proof (cases "f a \<in> set seen")
    case True
    then have "set (f a # seen) = set seen" by auto
    then have "first_occurrences f (f a # seen) rs = first_occurrences f seen rs"
      by (rule first_occurrences_seen_set)
    with True Cons[of "f a # seen"] show ?thesis by simp
  next
    case False
    with Cons[of "f a # seen"] show ?thesis by simp
  qed
qed

lemma drop_duplicates_rows:
  "drop_duplicates g col = g\<lparr>rows := first_occurrences (\<lambda>r. cell_of r col) [] (rows g)\<rparr>"
  by (simp add: drop_duplicates_def bool_index_def series_def drop_mask_first_occurrences)

lemma first_occurrences_keys:
  "set (map f (first_occurrences f seen rs)) = set (map f rs) - set seen"
  by (induction rs arbitrary: seen) auto

lemma first_occurrences_distinct: "distinct (map f (first_occurrences f seen rs))"
  by (induction rs arbitrary: seen) (auto simp: first_occurrences_keys simp del: set_map)

lemma first_occurrences_subseq: "subseq (first_occurrences f seen rs) rs"
  by (induction rs arbitrary: seen) auto

lemma first_occurrences_find:
  "find (\<lambda>r. f r = k) (first_occurrences f seen rs)
     = (if k \<in> set seen then None else find (\<lambda>r. f r = k) rs)"
proof (induction rs arbitrary: seen)
  case Nil
  then show ?case by simp
next
  case (Cons a rs)
  show ?case
  proof (cases "f a \<in> set seen")
    case True
    then show ?thesis using Cons[of seen] by auto
  next
    case False
    then show ?thesis using Cons[of "f a # seen"] by auto
  qed
qed

text \<open>
  Claim C5. When the collection contains at least one point geometry, the geometry-type
  filter keeps exactly the records with a point geometry; when it contains none, the
  filter leaves the collection unchanged.
\<close>

theorem geometry_filter_points:
  "fst (geometry_filter g)
     = (if contains_point g then g\<lparr>rows := filter is_point_row (rows g)\<rparr> else g)"
proof (cases "''geometry'' \<in> set (columns g)")
  case True
  then show ?thesis
    by (simp add: geometry_filter_def Let_def contains_point_def keep_points_rows
        point_in_index del: set_map)
next
  case False
  then show ?thesis
    by (simp add: geometry_filter_def contains_point_def)
qed

theorem geometry_filter_points_witness:
  "contains_point example_mixed
   \<and> rows (fst (geometry_filter example_mixed))
       = [[(''geometry'', Geo (Point 10 50)), (''amenity'', Str ''cafe'')],
          [(''geometry'', Geo (Point 12 52)), (''amenity'', Null)]]
   \<and> \<not> contains_point example_polygons
   \<and> fst (geometry_filter example_polygons) = example_polygons"
proof -
  have a: "contains_point example_mixed"
    by (simp add: contains_point_def example_mixed_def is_point_row_def geom_of_def cell_of_def)
  have b: "\<not> contains_point example_polygons"
    by (simp add: contains_point_def example_polygons_def is_point_row_def geom_of_def
        cell_of_def)
  have r: "filter is_point_row (rows example_mixed)
       = [[(''geometry'', Geo (Point 10 50)), (''amenity'', Str ''cafe'')],
          [(''geometry'', Geo (Point 12 52)), (''amenity'', Null)]]"
    by (simp add: example_mixed_def is_point_row_def geom_of_def cell_of_def)
  show ?thesis
    using a b geometry_filter_points [of example_mixed] geometry_filter_points [of example_polygons]
    by (simp add: r)
qed

text \<open>
  Claim C4. When the collection has an \<open>osmid\<close> column, deduplication keeps exactly one record
  for each identifier of the input, namely the first record carrying it in input order, and
  the records kept stay in their input order; when the collection has no such column, the
  stage returns it unchanged (so the record count is unchanged).
\<close>

theorem dedup_first_occurrence:
  "(if ''osmid'' \<in> set (columns g)
    then distinct (map osmid (rows (fst (dedup_stage g))))
       \<and> set (map osmid (rows (fst (dedup_stage g)))) = set (map osmid (rows g))
       \<and> (\<forall>k. find (\<lambda>r. osmid r = k) (rows (fst (dedup_stage g)))
               = find (\<lambda>r. osmid r = k) (rows g))
       \<and> subseq (rows (fst (dedup_stage g))) (rows g)
       \<and> columns (fst (dedup_stage g)) = columns g
    else fst (dedup_stage g) = g \<and> length (rows (fst (dedup_stage g))) = length (rows g))"
proof (cases "''osmid'' \<in> set (columns g)")
  case True
  have o: "(\<lambda>r. cell_of r ''osmid'') = osmid"
    by (simp add: osmid_def fun_eq_iff)
  from True have r: "rows (fst (dedup_stage g)) = first_occurrences osmid [] (rows g)"
    by (simp add: dedup_stage_def Let_def drop_duplicates_rows o)
  from True have c: "columns (fst (dedup_stage g)) = columns g"
    by (simp add: dedup_stage_def Let_def drop_duplicates_rows)
  have k: "set (map osmid (first_occurrences osmid [] (rows g))) = set (map osmid (rows g))"
    using first_occurrences_keys[of osmid "[]" "rows g"] by simp
  show ?thesis
    using True first_occurrences_distinct[of osmid "[]" "rows g"]
      first_occurrences_subseq[of osmid "[]" "rows g"] k
    by (simp add: r c first_occurrences_find del: set_map)
next
  case False
  then show ?thesis by (simp add: dedup_stage_def)
qed

theorem dedup_first_occurrence_witness:
  "''osmid'' \<in> set (columns example_points)
   \<and> rows (fst (dedup_stage example_points))
       = [[(''geometry'', Geo (Point 10 50)), (''amenity'', Str ''cafe''), (''osmid'', Num 1)],
          [(''geometry'', Geo (Point 12 52)), (''amenity'', Str ''cafe''), (''osmid'', Num 2)]]
   \<and> distinct (map osmid (rows (fst (dedup_stage example_points))))
   \<and> ''osmid'' \<notin> set (columns example_mixed)
   \<and> fst (dedup_stage example_mixed) = example_mixed"
proof -
  have a: "''osmid'' \<in> set (columns example_points)"
    by (simp add: example_points_def)
  have b: "''osmid'' \<notin> set (columns example_mixed)"
    by (simp add: example_mixed_def)
  have r: "rows (fst (dedup_stage example_points))
       = [[(''geometry'', Geo (Point 10 50)), (''amenity'', Str ''cafe''), (''osmid'', Num 1)],
          [(''geometry'', Geo (Point 12 52)), (''amenity'', Str ''cafe''), (''osmid'', Num 2)]]"
    by (simp add: example_points_def dedup_stage_def Let_def drop_duplicates_def bool_index_def
        series_def cell_of_def)
  show ?thesis
    using a b r dedup_first_occurrence [of example_points] dedup_first_occurrence [of example_mixed]
    by simp
qed

subsection \<open>The extractor up to the query\<close>

lemma extract_not_creatable:
  "\<not> creatable env output_folder w \<Longrightarrow>
     extract_amenities_for_place env place_name tags_dict output_folder w = (Inl OSError, [])"
  by (auto simp: extract_amenities_for_place_def creatable_def makedirs_def Let_def)

lemma extract_no_features:
  assumes "creatable env output_folder w"
    and "no_features (query_outcome env place_name tags_dict output_folder w)"
  shows "\<exists>m. extract_amenities_for_place env place_name tags_dict output_folder w
     = (Inr None,
        [MakeDirs (py_replace '','' '''' output_folder),
         Printed (MsgQuerying (query_place place_name)),
         Queried (query_place place_name) tags_dict,
         Printed m])"
  using assms
  by (auto simp: extract_amenities_for_place_def creatable_def makedirs_def Let_def
      query_outcome_def no_features_def split: sum.splits option.splits)

lemma extract_creatable_events:
  assumes "creatable env output_folder w"
  shows "\<exists>rest. snd (extract_amenities_for_place env place_name tags_dict output_folder w)
     = MakeDirs (py_replace '','' '''' output_folder)
       # Printed (MsgQuerying (query_place place_name))
       # Queried (query_place place_name) tags_dict # rest"
  using assms
  by (auto simp: extract_amenities_for_place_def creatable_def makedirs_def Let_def
      split: sum.splits option.splits prod.splits)

text \<open>
  Claim C2. When the output location can be created (so that the query is reached) and
  the feature query raises an error, returns \<open>None\<close> or returns an empty collection, the
  Region Extractor returns \<open>None\<close> and writes no file.
\<close>

theorem no_features_no_result_no_files:
  "creatable env output_folder w \<Longrightarrow>
   no_features (query_outcome env place_name tags_dict output_folder w) \<Longrightarrow>
     fst (extract_amenities_for_place env place_name tags_dict output_folder w) = Inr None
   \<and> files_written (snd (extract_amenities_for_place env place_name tags_dict output_folder w)) = []"
proof -
  assume c: "creatable env output_folder w"
    and n: "no_features (query_outcome env place_name tags_dict output_folder w)"
  from extract_no_features[OF c n] obtain m where
    "extract_amenities_for_place env place_name tags_dict output_folder w
       = (Inr None,
          [MakeDirs (py_replace '','' '''' output_folder),
           Printed (MsgQuerying (query_place place_name)),
           Queried (query_place place_name) tags_dict,
           Printed m])"
    by blast
  then show ?thesis
    by (simp add: files_written_def)
qed

theorem no_features_no_result_no_files_witness:
  "creatable env_query_fails ''out/Nowhere'' []
   \<and> no_features (query_outcome env_query_fails ''Nowhere'' [(''amenity'', SelBool True)] ''out/Nowhere'' [])
   \<and> fst (extract_amenities_for_place env_query_fails ''Nowhere'' [(''amenity'', SelBool True)]
            ''out/Nowhere'' []) = Inr None
   \<and> files_written (snd (extract_amenities_for_place env_query_fails ''Nowhere''
            [(''amenity'', SelBool True)] ''out/Nowhere'' [])) = []"
proof -
  have c: "creatable env_query_fails ''out/Nowhere'' []"
    by (simp add: creatable_def env_query_fails_def)
  have n: "no_features (query_outcome env_query_fails ''Nowhere'' [(''amenity'', SelBool True)]
             ''out/Nowhere'' [])"
    by (simp add: no_features_def query_outcome_def env_query_fails_def)
  show ?thesis
    using c n no_features_no_result_no_files [OF c n] by simp
qed

text \<open>
  Claim C9. In every invocation of the Region Extractor the output directory (the
  comma-stripped output location) is created before the feature query is made: any query
  among the events of the invocation comes after the creation of the directory. So when
  the location can be created and the query raises or returns nothing, the extractor
  returns \<open>None\<close> and the directory has been created all the same.
\<close>

theorem directory_created_before_query:
  "(\<forall>q t. Queried q t
             \<in> set (snd (extract_amenities_for_place env place_name tags_dict output_folder w))
      \<longrightarrow> (\<exists>pre post.
             snd (extract_amenities_for_place env place_name tags_dict output_folder w)
               = pre @ Queried q t # post
             \<and> MakeDirs (py_replace '','' '''' output_folder) \<in> set pre))
   \<and> (creatable env output_folder w
        \<and> no_features (query_outcome env place_name tags_dict output_folder w)
      \<longrightarrow> fst (extract_amenities_for_place env place_name tags_dict output_folder w) = Inr None
          \<and> MakeDirs (py_replace '','' '''' output_folder)
              \<in> set (snd (extract_amenities_for_place env place_name tags_dict output_folder w)))"
proof (intro conjI allI impI)
  fix q t
  let ?evs = "snd (extract_amenities_for_place env place_name tags_dict output_folder w)"
  let ?d = "MakeDirs (py_replace '','' '''' output_folder) :: 'a event"
  assume q: "Queried q t \<in> set ?evs"
  have c: "creatable env output_folder w"
  proof (rule ccontr)
    assume "\<not> creatable env output_folder w"
    then have "?evs = []" by (simp add: extract_not_creatable)
    with q show False by simp
  qed
  from extract_creatable_events[OF c] obtain rest where
    e: "?evs = ?d # Printed (MsgQuerying (query_place place_name))
              # Queried (query_place place_name) tags_dict # rest"
    by blast
  with q have "Queried q t \<in> set (tl ?evs)" by auto
  then obtain a b where ab: "tl ?evs = a @ Queried q t # b"
    by (auto dest: split_list)
  with e have "?evs = (?d # a) @ Queried q t # b" by simp
  then show "\<exists>pre post. ?evs = pre @ Queried q t # post \<and> ?d \<in> set pre"
    by (metis list.set_intros(1))
next
  assume "creatable env output_folder w
    \<and> no_features (query_outcome env place_name tags_dict output_folder w)"
  then have c: "creatable env output_folder w"
    and n: "no_features (query_outcome env place_name tags_dict output_folder w)"
    by simp_all
  from extract_no_features[OF c n]
  show "fst (extract_amenities_for_place env place_name tags_dict output_folder w) = Inr None"
    by auto
  from extract_no_features[OF c n]
  show "MakeDirs (py_replace '','' '''' output_folder)
      \<in> set (snd (extract_amenities_for_place env place_name tags_dict output_folder w))"
    by auto
qed

theorem directory_created_before_query_witness:
  "snd (extract_amenities_for_place env_query_fails ''Nowhere'' [(''amenity'', SelBool True)]
          ''out/Nowhere'' [])
     = [MakeDirs ''out/Nowhere'', Printed (MsgQuerying ''Nowhere'')]
       @ Queried ''Nowhere'' [(''amenity'', SelBool True)]
       # [Printed (MsgQueryError ''Nowhere'' (QueryError ''no such place''))]
   \<and> fst (extract_amenities_for_place env_query_fails ''Nowhere'' [(''amenity'', SelBool True)]
            ''out/Nowhere'' []) = Inr None
   \<and> MakeDirs ''out/Nowhere''
       \<in> set (snd (extract_amenities_for_place env_query_fails ''Nowhere''
                     [(''amenity'', SelBool True)] ''out/Nowhere'' []))"
proof -
  have c: "creatable env_query_fails ''out/Nowhere'' []"
    by (simp add: creatable_def env_query_fails_def)
  have n: "no_features (query_outcome env_query_fails ''Nowhere'' [(''amenity'', SelBool True)]
             ''out/Nowhere'' [])"
    by (simp add: no_features_def query_outcome_def env_query_fails_def)
  have e: "snd (extract_amenities_for_place env_query_fails ''Nowhere''
                  [(''amenity'', SelBool True)] ''out/Nowhere'' [])
     = [MakeDirs ''out/Nowhere'', Printed (MsgQuerying ''Nowhere'')]
       @ Queried ''Nowhere'' [(''amenity'', SelBool True)]
       # [Printed (MsgQueryError ''Nowhere'' (QueryError ''no such place''))]"
    by (simp add: extract_amenities_for_place_def makedirs_def env_query_fails_def Let_def
        query_place_def py_strip_def py_split_def isspace_def)
  show ?thesis
    using c n e
      directory_created_before_query [of env_query_fails "''Nowhere''"
        "[(''amenity'', SelBool True)]" "''out/Nowhere''" "[]"]
    by simp
qed

subsection \<open>What each operation adds to the events\<close>

lemma map_filter_app: "List.map_filter f (a @ b) = List.map_filter f a @ List.map_filter f b"
  by (simp add: List.map_filter_def)














subsection \<open>The driver, region by region\<close>
















subsection \<open>Trimming and the Name Normalizer\<close>

lemma isspace_not_comma_slash: "isspace c \<Longrightarrow> c \<noteq> CHR '','' \<and> c \<noteq> CHR ''/''"
  by (auto simp: isspace_def)

lemma py_strip_decompose:
  "s = takeWhile isspace s @ py_strip s
         @ rev (takeWhile isspace (rev (dropWhile isspace s)))"
proof -
  let ?u = "dropWhile isspace s"
  have "rev (dropWhile isspace (rev ?u)) @ rev (takeWhile isspace (rev ?u))
      = rev (takeWhile isspace (rev ?u) @ dropWhile isspace (rev ?u))"
    by (simp only: rev_append)
  also have "\<dots> = rev (rev ?u)"
    by (simp only: takeWhile_dropWhile_id)
  also have "\<dots> = ?u"
    by (simp only: rev_rev_ident)
  finally have u: "py_strip s @ rev (takeWhile isspace (rev ?u)) = ?u"
    by (simp only: py_strip_def)
  have "s = takeWhile isspace s @ ?u"
    by (simp only: takeWhile_dropWhile_id)
  then show ?thesis
    by (simp only: u)
qed

lemma py_strip_all_space:
  assumes "\<And>c. c \<in> set x \<Longrightarrow> isspace c"
  shows "py_strip x = []"
proof -
  have d: "dropWhile isspace x = []"
    using assms by simp
  show ?thesis by (simp only: py_strip_def d rev.simps dropWhile.simps)
qed

lemma py_strip_padding:
  assumes l: "\<And>c. c \<in> set l \<Longrightarrow> isspace c" and t: "\<And>c. c \<in> set t \<Longrightarrow> isspace c"
  shows "py_strip (l @ x @ t) = py_strip x"
proof (cases "\<forall>c\<in>set x. isspace c")
  case True
  then have "\<And>c. c \<in> set (l @ x @ t) \<Longrightarrow> isspace c"
    using l t by auto
  then have "py_strip (l @ x @ t) = []" by (rule py_strip_all_space)
  moreover from True have "py_strip x = []" by (simp add: py_strip_all_space)
  ultimately show ?thesis by simp
next
  case False
  then obtain c where c: "c \<in> set x" "\<not> isspace c" by auto
  have 1: "dropWhile isspace (l @ x @ t) = dropWhile isspace (x @ t)"
    by (rule dropWhile_append2) (use l in auto)
  have 2: "dropWhile isspace (x @ t) = dropWhile isspace x @ t"
    using c by (rule dropWhile_append1)
  have 3: "dropWhile isspace (rev t @ rev (dropWhile isspace x))
         = dropWhile isspace (rev (dropWhile isspace x))"
    by (rule dropWhile_append2) (use t in auto)
  show ?thesis
    by (simp add: py_strip_def 1 2 3)
qed

lemma clean_name_py_strip: "clean_name (py_strip s) = clean_name s"
proof -
  let ?f = "\<lambda>x. map (swap_char CHR ''/'' CHR ''_'') (filter (\<lambda>c. c \<noteq> CHR '','') x)"
  let ?l = "takeWhile isspace s"
  let ?t = "rev (takeWhile isspace (rev (dropWhile isspace s)))"
  have fx: "\<And>x. (\<And>c. c \<in> set x \<Longrightarrow> isspace c) \<Longrightarrow> ?f x = x"
  proof -
    fix x :: string
    assume a: "\<And>c. c \<in> set x \<Longrightarrow> isspace c"
    then have "filter (\<lambda>c. c \<noteq> CHR '','') x = x"
      using isspace_not_comma_slash by (auto simp: filter_id_conv)
    moreover have "map (swap_char CHR ''/'' CHR ''_'') x = x"
      using a isspace_not_comma_slash by (auto simp: map_idI swap_char_def)
    ultimately show "?f x = x" by simp
  qed
  have l: "\<And>c. c \<in> set ?l \<Longrightarrow> isspace c"
    by (auto dest: set_takeWhileD)
  have t: "\<And>c. c \<in> set ?t \<Longrightarrow> isspace c"
    by (auto dest: set_takeWhileD)
  have "?f s = ?f (?l @ py_strip s @ ?t)"
    using py_strip_decompose[of s] by simp
  also have "\<dots> = ?f ?l @ ?f (py_strip s) @ ?f ?t"
    by simp
  also have "\<dots> = ?l @ ?f (py_strip s) @ ?t"
  proof -
    have "?f ?l = ?l" by (rule fx) (rule l)
    moreover have "?f ?t = ?t" by (rule fx) (rule t)
    ultimately show ?thesis by (simp only:)
  qed
  finally have "py_strip (?f s) = py_strip (?l @ ?f (py_strip s) @ ?t)"
    by simp
  also have "\<dots> = py_strip (?f (py_strip s))"
    using l t by (rule py_strip_padding)
  finally show ?thesis
    by (simp add: clean_name_alt)
qed

subsection \<open>Replacing the extension\<close>

lemma py_replace_skip:
  "c \<notin> set a \<Longrightarrow> py_replace (c # old) new (a @ s) = a @ py_replace (c # old) new s"
  by (induction a) auto

lemma geojson_to_csv: "py_replace ''.geojson'' ''.csv'' ''.geojson'' = ''.csv''"
  by simp

lemma set_py_replace: "set (py_replace old new s) \<subseteq> set s \<union> set new"
proof (induction old new s rule: py_replace.induct)
  case (1 old new)
  then show ?case by auto
next
  case (2 old new c cs)
  show ?case
  proof (cases "old = []")
    case True
    with 2 show ?thesis by auto
  next
    case False
    show ?thesis
    proof (cases "prefix old (c # cs)")
      case True
      have "set (drop (length old) (c # cs)) \<subseteq> set (c # cs)"
        by (rule set_drop_subset)
      with 2(2)[OF False True] False True show ?thesis by auto
    next
      case p: False
      with 2(3)[OF False p] False show ?thesis by auto
    qed
  qed
qed

lemma set_clean_name: "set (clean_name s) \<subseteq> insert CHR ''_'' (set s)"
proof -
  have "set (py_strip (map (swap_char CHR ''/'' CHR ''_'') (filter (\<lambda>x. x \<noteq> CHR '','') s)))
      \<subseteq> insert CHR ''_'' (set s)"
    using set_py_strip[of "map (swap_char CHR ''/'' CHR ''_'') (filter (\<lambda>x. x \<noteq> CHR '','') s)"]
    by (auto simp: swap_char_def split: if_splits)
  then show ?thesis
    by (auto simp: clean_name_alt swap_char_def split: if_splits)
qed

subsection \<open>Where the extractor writes\<close>

lemma within_mono: "N \<subseteq> N' \<Longrightarrow> event_within d N e \<Longrightarrow> event_within d N' e"
  by (cases e) (auto simp: event_within_def)

lemma list_within_mono:
  "N \<subseteq> N' \<Longrightarrow> list_all (event_within d N) evs \<Longrightarrow> list_all (event_within d N') evs"
  by (induction evs) (auto intro: within_mono)

lemma within_printed1: "event_within d N (Printed m)"
  by (simp add: event_within_def)

lemma within_printed: "list_all (event_within d N) (map Printed ms)"
  by (induction ms) (auto simp: event_within_def)

lemma try_to_file_within:
  "name \<in> N \<Longrightarrow> list_all (event_within d N) (try_to_file env (path_join d name) d g m w)"
  by (auto simp: try_to_file_def makedirs_def event_within_def)

lemma try_to_csv_within:
  "name \<in> N \<Longrightarrow> list_all (event_within d N) (try_to_csv env (path_join d name) d g m w)"
  by (auto simp: try_to_csv_def makedirs_def event_within_def)

lemma export_combined_within:
  "list_all (event_within d {combined_fname_geo ps, combined_fname_csv ps})
     (export_combined env ps d g w)"
  by (simp add: export_combined_def Let_def try_to_file_within try_to_csv_within)

lemma export_subset_within:
  "list_all (event_within d {fname_geojson ps key, fname_csv ps key})
     (export_subset env ps d key s w)"
  by (simp add: export_subset_def Let_def try_to_file_within try_to_csv_within)

lemma export_categories_within:
  "list_all
     (event_within d
        (set (concat (map (\<lambda>kv. [fname_geojson ps (fst kv), fname_csv ps (fst kv)]) tags_dict))))
     (export_categories env qp ps d g tags_dict w)"
proof (induction tags_dict arbitrary: w)
  case Nil
  then show ?case by simp
next
  case (Cons kv rest)
  obtain key sel where kv: "kv = (key, sel)" by (cases kv)
  let ?N = "set (concat (map (\<lambda>kv. [fname_geojson ps (fst kv), fname_csv ps (fst kv)]) (kv # rest)))"
  let ?R = "set (concat (map (\<lambda>kv. [fname_geojson ps (fst kv), fname_csv ps (fst kv)]) rest))"
  have r: "list_all (event_within d ?N) (export_categories env qp ps d g rest w')" for w'
  proof (rule list_within_mono[of ?R])
    show "?R \<subseteq> ?N" by auto
    show "list_all (event_within d ?R) (export_categories env qp ps d g rest w')"
      by (rule Cons)
  qed
  have s: "list_all (event_within d ?N) (export_subset env ps d key x w)" for x
  proof (rule list_within_mono[of "{fname_geojson ps key, fname_csv ps key}"])
    show "{fname_geojson ps key, fname_csv ps key} \<subseteq> ?N" by (auto simp: kv)
    show "list_all (event_within d {fname_geojson ps key, fname_csv ps key})
            (export_subset env ps d key x w)"
      by (rule export_subset_within)
  qed
  show ?case
    using r s by (simp add: kv Let_def within_printed1)
qed

lemma process_features_within:
  "list_all (event_within d (set (output_names qp tags_dict)))
     (snd (process_features env qp tags_dict d g w))"
proof -
  let ?N = "set (output_names qp tags_dict)"
  have c: "\<And>x w'. list_all (event_within d ?N) (export_combined env (clean_name qp) d x w')"
    by (rule list_within_mono[OF _ export_combined_within]) (auto simp: output_names_def)
  have k: "\<And>x w'. list_all (event_within d ?N)
            (export_categories env qp (clean_name qp) d x tags_dict w')"
    by (rule list_within_mono[OF _ export_categories_within]) (auto simp: output_names_def)
  show ?thesis
    by (simp add: process_features_def Let_def case_prod_beta within_printed c k
        split: sum.splits)
qed

lemma extract_within:
  "list_all
     (event_within (py_replace '','' '''' output_folder)
        (set (output_names (query_place place_name) tags_dict)))
     (snd (extract_amenities_for_place env place_name tags_dict output_folder w))"
  by (simp add: extract_amenities_for_place_def makedirs_def Let_def case_prod_beta
      process_features_within split: sum.splits option.splits)
    (simp add: event_within_def)

lemma within_files:
  "list_all (event_within d N) evs \<Longrightarrow> set (files_written evs) \<subseteq> path_join d ` N"
proof (induction evs)
  case Nil
  then show ?case by (simp add: files_written_def)
next
  case (Cons e evs)
  then show ?case
    by (cases e) (auto simp: files_written_def event_within_def)
qed

lemma within_dirs:
  "list_all (event_within d N) evs \<Longrightarrow>
     set (dirs_made evs) \<subseteq> insert d (dirname ` path_join d ` N)"
proof (induction evs)
  case Nil
  then show ?case by (simp add: dirs_made_def)
next
  case (Cons e evs)
  then show ?case
    by (cases e) (auto simp: dirs_made_def event_within_def)
qed

subsection \<open>No comma in any path\<close>

lemma no_comma_stripped: "CHR '','' \<notin> set (py_replace '','' '''' s)"
  by (simp add: py_replace_char_empty)

lemma set_path_join: "set (path_join a b) \<subseteq> insert CHR ''/'' (set a \<union> set b)"
  by (auto simp: path_join_def)

lemma set_dirname: "set (dirname p) \<subseteq> set p"
proof -
  let ?h = "rev (dropWhile (\<lambda>c. c \<noteq> CHR ''/'') (rev p))"
  have h: "set ?h \<subseteq> set p"
    by (auto dest: set_dropWhileD)
  have "set (rev (dropWhile (\<lambda>c. c = CHR ''/'') (rev ?h))) \<subseteq> set ?h"
    by (auto dest: set_dropWhileD)
  with h show ?thesis
    by (auto simp: dirname_def Let_def)
qed

lemma no_comma_names: "n \<in> set (output_names qp tags_dict) \<Longrightarrow> CHR '','' \<notin> set n"
proof -
  have g: "\<And>x. CHR '','' \<notin> set x \<Longrightarrow> CHR '','' \<notin> set (py_replace ''.geojson'' ''.csv'' x)"
    using set_py_replace[of "''.geojson''" "''.csv''"] by auto
  have a: "CHR '','' \<notin> set (combined_fname_geo (clean_name qp))"
    using clean_name_no_comma[of qp] by (simp add: combined_fname_geo_def)
  have b: "\<And>k. CHR '','' \<notin> set (fname_geojson (clean_name qp) k)"
    using clean_name_no_comma by (simp add: fname_geojson_def)
  assume "n \<in> set (output_names qp tags_dict)"
  then show ?thesis
    using a b g[OF a] g[OF b]
    by (auto simp: output_names_def combined_fname_csv_def fname_csv_def)
qed

text \<open>
  Claim C10. The extractor strips every comma from the output location before it creates
  the directory and before it writes: the comma-stripped path has no comma, the first event
  of an invocation (if any) is the creation of that directory, every file is written at
  the comma-stripped path joined with one of the extractor's file names, and no path
  written or created contains a comma.
\<close>

theorem output_under_comma_stripped_path:
  "CHR '','' \<notin> set (py_replace '','' '''' output_folder)
   \<and> (snd (extract_amenities_for_place env place_name tags_dict output_folder w) = []
      \<or> hd (snd (extract_amenities_for_place env place_name tags_dict output_folder w))
          = MakeDirs (py_replace '','' '''' output_folder))
   \<and> set (files_written (snd (extract_amenities_for_place env place_name tags_dict output_folder w)))
       \<subseteq> path_join (py_replace '','' '''' output_folder)
           ` set (output_names (query_place place_name) tags_dict)
   \<and> (\<forall>p \<in> set (files_written
                    (snd (extract_amenities_for_place env place_name tags_dict output_folder w)))
             \<union> set (dirs_made
                    (snd (extract_amenities_for_place env place_name tags_dict output_folder w))).
        CHR '','' \<notin> set p)"
proof -
  let ?d = "py_replace '','' '''' output_folder"
  let ?N = "set (output_names (query_place place_name) tags_dict)"
  let ?evs = "snd (extract_amenities_for_place env place_name tags_dict output_folder w)"
  have d: "CHR '','' \<notin> set ?d" by (rule no_comma_stripped)
  have first: "?evs = [] \<or> hd ?evs = MakeDirs ?d"
  proof (cases "creatable env output_folder w")
    case True
    from extract_creatable_events[OF True, of place_name tags_dict]
    show ?thesis by auto
  next
    case False
    then show ?thesis by (simp add: extract_not_creatable)
  qed
  have w: "list_all (event_within ?d ?N) ?evs" by (rule extract_within)
  have files: "set (files_written ?evs) \<subseteq> path_join ?d ` ?N"
    using w by (rule within_files)
  have dirs: "set (dirs_made ?evs) \<subseteq> insert ?d (dirname ` path_join ?d ` ?N)"
    using w by (rule within_dirs)
  have j: "CHR '','' \<notin> set (path_join ?d n)" if "n \<in> ?N" for n
    using set_path_join[of ?d n] d no_comma_names[OF that] by auto
  have "CHR '','' \<notin> set p" if "p \<in> set (files_written ?evs) \<union> set (dirs_made ?evs)" for p
  proof -
    from that files dirs
    consider n where "n \<in> ?N" "p = path_join ?d n"
      | "p = ?d"
      | n where "n \<in> ?N" "p = dirname (path_join ?d n)"
      by auto
    then show ?thesis
    proof cases
      case 1
      then show ?thesis using j by simp
    next
      case 2
      then show ?thesis using d by simp
    next
      case 3
      then show ?thesis using j[of n] set_dirname[of "path_join ?d n"] by auto
    qed
  qed
  with d first files show ?thesis by blast
qed

theorem output_under_comma_stripped_path_witness:
  "dirs_made (snd (extract_amenities_for_place env_points ''Testville''
       [(''amenity'', SelBool True)] ''out,put/Testville'' []))
     = [''output/Testville'', ''output/Testville'', ''output/Testville'', ''output/Testville'',
        ''output/Testville'']
   \<and> files_written (snd (extract_amenities_for_place env_points ''Testville''
       [(''amenity'', SelBool True)] ''out,put/Testville'' []))
     = [''output/Testville/Testville_all_amenities.geojson'',
        ''output/Testville/Testville_all_amenities.csv'',
        ''output/Testville/Testville_amenity.geojson'',
        ''output/Testville/Testville_amenity.csv'']
   \<and> CHR '','' \<notin> set ''output/Testville/Testville_amenity.csv''
   \<and> ''output/Testville/Testville_amenity.csv''
       \<in> path_join ''output/Testville''
           ` set (output_names (query_place ''Testville'') [(''amenity'', SelBool True)])"
proof -
  have s: "py_replace '','' '''' ''out,put/Testville'' = ''output/Testville''"
    by simp
  have dm: "dirs_made (snd (extract_amenities_for_place env_points ''Testville''
       [(''amenity'', SelBool True)] ''out,put/Testville'' []))
     = [''output/Testville'', ''output/Testville'', ''output/Testville'', ''output/Testville'',
        ''output/Testville'']"
    by code_simp
  have fw: "files_written (snd (extract_amenities_for_place env_points ''Testville''
       [(''amenity'', SelBool True)] ''out,put/Testville'' []))
     = [''output/Testville/Testville_all_amenities.geojson'',
        ''output/Testville/Testville_all_amenities.csv'',
        ''output/Testville/Testville_amenity.geojson'',
        ''output/Testville/Testville_amenity.csv'']"
    by code_simp
  show ?thesis
    using output_under_comma_stripped_path [of "''out,put/Testville''" env_points "''Testville''"
        "[(''amenity'', SelBool True)]" "[]"]
    by (simp add: s dm fw)
qed

subsection \<open>Where the batch writes\<close>

lemma files_written_app: "files_written (a @ b) = files_written a @ files_written b"
  by (simp add: files_written_def map_filter_app)

lemma extract_files:
  "set (files_written (snd (extract_amenities_for_place env place_name tags_dict output_folder w)))
     \<subseteq> path_join (py_replace '','' '''' output_folder)
         ` set (output_names (query_place place_name) tags_dict)"
  using extract_within by (rule within_files)

lemma driver_files:
  "set (files_written (snd (extract_for_provinces env provs tags_dict output_root_folder w)))
     \<subseteq> (\<Union>p\<in>set provs.
           path_join (py_replace '','' '''' (province_folder output_root_folder p))
             ` set (output_names (query_place p) tags_dict))"
proof (induction provs arbitrary: w)
  case Nil
  then show ?case by (simp add: files_written_def)
next
  case (Cons p provs)
  let ?r = "extract_amenities_for_place env p tags_dict (province_folder output_root_folder p)
              (w @ [Printed (MsgExtracting (clean_name p))])"
  let ?U = "\<Union>p\<in>set (p # provs).
              path_join (py_replace '','' '''' (province_folder output_root_folder p))
                ` set (output_names (query_place p) tags_dict)"
  obtain res e1 where r: "?r = (res, e1)" by (cases ?r)
  have e1: "set (files_written e1) \<subseteq> ?U"
    using extract_files[of env p tags_dict "province_folder output_root_folder p"
        "w @ [Printed (MsgExtracting (clean_name p))]"]
    by (auto simp: r)
  have b: "files_written (Printed (MsgExtracting (clean_name p)) # e1) = files_written e1"
    by (simp add: files_written_def)
  show ?case
  proof (cases res)
    case (Inl e)
    then show ?thesis using e1 by (simp add: r Let_def b del: UN_simps)
  next
    case (Inr x)
    obtain res' e2 where y: "extract_for_provinces env provs tags_dict output_root_folder
        (w @ Printed (MsgExtracting (clean_name p)) # e1) = (res', e2)"
      by (cases "extract_for_provinces env provs tags_dict output_root_folder
        (w @ Printed (MsgExtracting (clean_name p)) # e1)")
    from Cons[of "w @ Printed (MsgExtracting (clean_name p)) # e1"] y
    have e2: "set (files_written e2) \<subseteq> ?U" by auto
    have "files_written (Printed (MsgExtracting (clean_name p)) # e1 @ e2)
        = files_written e1 @ files_written e2"
      using files_written_app[of "Printed (MsgExtracting (clean_name p)) # e1" e2] b by simp
    then show ?thesis
      using e1 e2 by (simp add: r Inr y Let_def del: UN_simps)
  qed
qed

lemma output_names_base: "output_names qp tags_dict = names_with_base (clean_name qp) tags_dict"
  by (simp add: output_names_def names_with_base_def combined_fname_geo_def
      combined_fname_csv_def fname_geojson_def fname_csv_def)

lemma csv_name: "CHR ''.'' \<notin> set a \<Longrightarrow> py_replace ''.geojson'' ''.csv'' (a @ ''.geojson'') = a @ ''.csv''"
  using py_replace_skip[of "CHR ''.''" a "''geojson''" "''.csv''" "''.geojson''"] by simp

lemma no_dot_clean_name: "CHR ''.'' \<notin> set s \<Longrightarrow> CHR ''.'' \<notin> set (clean_name s)"
  using set_clean_name[of s] by auto

lemma names_with_base_no_dot:
  assumes "CHR ''.'' \<notin> set base" and "\<And>kv. kv \<in> set tags_dict \<Longrightarrow> CHR ''.'' \<notin> set (fst kv)"
  shows "names_with_base base tags_dict = layout_names base tags_dict"
proof -
  have c: "py_replace ''.geojson'' ''.csv'' (base @ ''_all_amenities.geojson'')
      = base @ ''_all_amenities.csv''"
    using csv_name[of "base @ ''_all_amenities''"] assms(1) by simp
  have k: "py_replace ''.geojson'' ''.csv'' (base @ ''_'' @ clean_name (fst kv) @ ''.geojson'')
      = base @ ''_'' @ clean_name (fst kv) @ ''.csv''" if "kv \<in> set tags_dict" for kv
    using csv_name[of "base @ ''_'' @ clean_name (fst kv)"] assms(1)
      no_dot_clean_name[OF assms(2)[OF that]]
    by simp
  have "map (\<lambda>kv. [base @ ''_'' @ clean_name (fst kv) @ ''.geojson'',
                    py_replace ''.geojson'' ''.csv''
                      (base @ ''_'' @ clean_name (fst kv) @ ''.geojson'')]) tags_dict
      = map (\<lambda>kv. [base @ ''_'' @ clean_name (fst kv) @ ''.geojson'',
                    base @ ''_'' @ clean_name (fst kv) @ ''.csv'']) tags_dict"
    using k by (intro map_cong) simp_all
  then show ?thesis
    by (simp only: names_with_base_def layout_names_def c)
qed

lemma stripped_folder:
  "CHR '','' \<notin> set output_root_folder \<Longrightarrow>
     py_replace '','' '''' (province_folder output_root_folder p)
       = path_join output_root_folder (clean_name p)"
proof -
  assume r: "CHR '','' \<notin> set output_root_folder"
  have "CHR '','' \<notin> set (path_join output_root_folder (clean_name p))"
    using set_path_join[of output_root_folder "clean_name p"] r clean_name_no_comma[of p]
    by auto
  then show ?thesis
    by (auto simp: province_folder_def py_replace_char_empty filter_id_conv)
qed

text \<open>
  Claim C7 says that the base name of a region's files is the name of the region's
  subdirectory. The driver names the subdirectory after \<open>clean_name\<close> of the region as
  given, the extractor names the files after \<open>clean_name\<close> of the query name, in which runs
  of whitespace are collapsed first. For the region \<open>a  b\<close> (two spaces) the subdirectory
  is \<open>a__b\<close> and the files start with \<open>a_b\<close>.
\<close>

theorem base_name_differs_counterexample:
  "province_folder ''out'' ''a  b'' = ''out/a__b''
   \<and> clean_name (query_place ''a  b'') = ''a_b''
   \<and> clean_name (query_place ''a  b'') \<noteq> clean_name ''a  b''
   \<and> files_written (snd (extract_amenities_for_place env_points ''a  b''
                            [(''amenity'', SelBool True)] (province_folder ''out'' ''a  b'')
                            [Printed (MsgExtracting (clean_name ''a  b''))]))
       = [''out/a__b/a_b_all_amenities.geojson'', ''out/a__b/a_b_all_amenities.csv'',
          ''out/a__b/a_b_amenity.geojson'', ''out/a__b/a_b_amenity.csv'']"
proof -
  have 1: "province_folder ''out'' ''a  b'' = ''out/a__b''" by code_simp
  have 2: "clean_name (query_place ''a  b'') = ''a_b''" by code_simp
  have 3: "clean_name ''a  b'' = ''a__b''" by code_simp
  have 4: "files_written (snd (extract_amenities_for_place env_points ''a  b''
                            [(''amenity'', SelBool True)] (province_folder ''out'' ''a  b'')
                            [Printed (MsgExtracting (clean_name ''a  b''))]))
       = [''out/a__b/a_b_all_amenities.geojson'', ''out/a__b/a_b_all_amenities.csv'',
          ''out/a__b/a_b_amenity.geojson'', ''out/a__b/a_b_amenity.csv'']"
    by code_simp
  have 5: "clean_name (query_place ''a  b'') \<noteq> clean_name ''a  b''"
    by (simp only: 2 3) simp
  from 1 2 5 4 show ?thesis by (intro conjI)
qed

text \<open>
  Claim C7, amended. Take regions whose names whitespace collapsing only trims (no tab or
  newline inside, no two spaces in a row). Then the base name of a region's files is
  \<open>clean_name\<close> of the region, which is the name the driver gives the region's
  subdirectory, and every file the batch writes lies at the comma-stripped path of a
  region's subdirectory (root joined with \<open>clean_name\<close> of the region) joined with a file
  name built on that base name. When moreover the root has no comma and no region or
  category key has a dot, every file written is
  \<open>root/region/region_all_amenities.geojson\<close>, \<open>root/region/region_all_amenities.csv\<close>,
  \<open>root/region/region_category.geojson\<close> or \<open>root/region/region_category.csv\<close>, with
  region and category normalized.
\<close>

theorem batch_files_layout:
  "(\<forall>p\<in>set provs. query_place p = py_strip p) \<Longrightarrow>
     (\<forall>p\<in>set provs.
        clean_name (query_place p) = clean_name p
        \<and> province_folder output_root_folder p = path_join output_root_folder (clean_name p))
   \<and> set (files_written (snd (extract_for_provinces env provs tags_dict output_root_folder w)))
       \<subseteq> (\<Union>p\<in>set provs.
             path_join (py_replace '','' '''' (path_join output_root_folder (clean_name p)))
               ` set (names_with_base (clean_name p) tags_dict))
   \<and> (CHR '','' \<notin> set output_root_folder
        \<and> (\<forall>p\<in>set provs. CHR ''.'' \<notin> set p)
        \<and> (\<forall>kv\<in>set tags_dict. CHR ''.'' \<notin> set (fst kv)) \<longrightarrow>
      set (files_written (snd (extract_for_provinces env provs tags_dict output_root_folder w)))
        \<subseteq> (\<Union>p\<in>set provs.
              path_join (path_join output_root_folder (clean_name p))
                ` set (layout_names (clean_name p) tags_dict)))"
proof -
  assume q: "\<forall>p\<in>set provs. query_place p = py_strip p"
  let ?F = "set (files_written (snd (extract_for_provinces env provs tags_dict output_root_folder w)))"
  have base: "clean_name (query_place p) = clean_name p" if "p \<in> set provs" for p
    using q that by (simp add: clean_name_py_strip)
  have names: "output_names (query_place p) tags_dict = names_with_base (clean_name p) tags_dict"
    if "p \<in> set provs" for p
    by (simp add: output_names_base base[OF that])
  have one: "?F \<subseteq> (\<Union>p\<in>set provs.
             path_join (py_replace '','' '''' (path_join output_root_folder (clean_name p)))
               ` set (names_with_base (clean_name p) tags_dict))"
  proof
    fix x assume "x \<in> ?F"
    with driver_files[of env provs tags_dict output_root_folder w]
    obtain p where p: "p \<in> set provs"
      and x: "x \<in> path_join (py_replace '','' '''' (province_folder output_root_folder p))
                    ` set (output_names (query_place p) tags_dict)"
      by blast
    from x have "x \<in> path_join (py_replace '','' '''' (path_join output_root_folder (clean_name p)))
                    ` set (names_with_base (clean_name p) tags_dict)"
      by (simp only: names[OF p] province_folder_def)
    with p show "x \<in> (\<Union>p\<in>set provs.
             path_join (py_replace '','' '''' (path_join output_root_folder (clean_name p)))
               ` set (names_with_base (clean_name p) tags_dict))"
      by blast
  qed
  have two: "?F \<subseteq> (\<Union>p\<in>set provs.
              path_join (path_join output_root_folder (clean_name p))
                ` set (layout_names (clean_name p) tags_dict))"
    if r: "CHR '','' \<notin> set output_root_folder"
      and d: "\<forall>p\<in>set provs. CHR ''.'' \<notin> set p"
      and k: "\<forall>kv\<in>set tags_dict. CHR ''.'' \<notin> set (fst kv)"
  proof
    fix x assume "x \<in> ?F"
    with one obtain p where p: "p \<in> set provs"
      and x: "x \<in> path_join (py_replace '','' '''' (path_join output_root_folder (clean_name p)))
                    ` set (names_with_base (clean_name p) tags_dict)"
      by blast
    have s: "py_replace '','' '''' (path_join output_root_folder (clean_name p))
        = path_join output_root_folder (clean_name p)"
      using stripped_folder[OF r, of p] by (simp add: province_folder_def)
    have n: "names_with_base (clean_name p) tags_dict = layout_names (clean_name p) tags_dict"
      using d p k by (intro names_with_base_no_dot no_dot_clean_name) auto
    from x have "x \<in> path_join (path_join output_root_folder (clean_name p))
                    ` set (layout_names (clean_name p) tags_dict)"
      by (simp only: s n)
    with p show "x \<in> (\<Union>p\<in>set provs.
              path_join (path_join output_root_folder (clean_name p))
                ` set (layout_names (clean_name p) tags_dict))"
      by blast
  qed
  show ?thesis
    using base one two by (simp add: province_folder_def)
qed

theorem batch_files_layout_witness:
  "files_written (snd (extract_for_provinces env_points [''Calgary, Alberta'']
       [(''amenity'', SelBool True)] ''osm_helper_data'' []))
     = [''osm_helper_data/Calgary_Alberta/Calgary_Alberta_all_amenities.geojson'',
        ''osm_helper_data/Calgary_Alberta/Calgary_Alberta_all_amenities.csv'',
        ''osm_helper_data/Calgary_Alberta/Calgary_Alberta_amenity.geojson'',
        ''osm_helper_data/Calgary_Alberta/Calgary_Alberta_amenity.csv'']
   \<and> clean_name (query_place ''Calgary, Alberta'') = clean_name ''Calgary, Alberta''
   \<and> province_folder ''osm_helper_data'' ''Calgary, Alberta''
       = path_join ''osm_helper_data'' (clean_name ''Calgary, Alberta'')
   \<and> set [''osm_helper_data/Calgary_Alberta/Calgary_Alberta_all_amenities.geojson'',
          ''osm_helper_data/Calgary_Alberta/Calgary_Alberta_all_amenities.csv'',
          ''osm_helper_data/Calgary_Alberta/Calgary_Alberta_amenity.geojson'',
          ''osm_helper_data/Calgary_Alberta/Calgary_Alberta_amenity.csv'']
       \<subseteq> path_join (path_join ''osm_helper_data'' (clean_name ''Calgary, Alberta''))
           ` set (layout_names (clean_name ''Calgary, Alberta'') [(''amenity'', SelBool True)])"
proof -
  have h: "\<forall>p\<in>set [''Calgary, Alberta'']. query_place p = py_strip p"
    by code_simp
  have f: "files_written (snd (extract_for_provinces env_points [''Calgary, Alberta'']
       [(''amenity'', SelBool True)] ''osm_helper_data'' []))
     = [''osm_helper_data/Calgary_Alberta/Calgary_Alberta_all_amenities.geojson'',
        ''osm_helper_data/Calgary_Alberta/Calgary_Alberta_all_amenities.csv'',
        ''osm_helper_data/Calgary_Alberta/Calgary_Alberta_amenity.geojson'',
        ''osm_helper_data/Calgary_Alberta/Calgary_Alberta_amenity.csv'']"
    by code_simp
  have g: "CHR '','' \<notin> set ''osm_helper_data''
      \<and> (\<forall>p\<in>set [''Calgary, Alberta'']. CHR ''.'' \<notin> set p)
      \<and> (\<forall>kv\<in>set [(''amenity'', SelBool True)]. CHR ''.'' \<notin> set (fst kv))"
    by simp
  note t = batch_files_layout [OF h, of "''osm_helper_data''" env_points
      "[(''amenity'', SelBool True)]" "[]"]
  from t have a: "clean_name (query_place ''Calgary, Alberta'') = clean_name ''Calgary, Alberta''"
    and b: "province_folder ''osm_helper_data'' ''Calgary, Alberta''
       = path_join ''osm_helper_data'' (clean_name ''Calgary, Alberta'')"
    by simp_all
  from t g have "set (files_written (snd (extract_for_provinces env_points [''Calgary, Alberta'']
       [(''amenity'', SelBool True)] ''osm_helper_data'' [])))
     \<subseteq> (\<Union>p\<in>set [''Calgary, Alberta''].
           path_join (path_join ''osm_helper_data'' (clean_name p))
             ` set (layout_names (clean_name p) [(''amenity'', SelBool True)]))"
    by blast
  then have c: "set [''osm_helper_data/Calgary_Alberta/Calgary_Alberta_all_amenities.geojson'',
          ''osm_helper_data/Calgary_Alberta/Calgary_Alberta_all_amenities.csv'',
          ''osm_helper_data/Calgary_Alberta/Calgary_Alberta_amenity.geojson'',
          ''osm_helper_data/Calgary_Alberta/Calgary_Alberta_amenity.csv'']
       \<subseteq> path_join (path_join ''osm_helper_data'' (clean_name ''Calgary, Alberta''))
           ` set (layout_names (clean_name ''Calgary, Alberta'') [(''amenity'', SelBool True)])"
    unfolding f by simp
  from f a b c show ?thesis by (intro conjI)
qed


end
